theory Spec2Isabelle
  imports Main "HOL-Library.Multiset"
begin

section \<open>URL submission: validation gate and record store\<close>

text \<open>
  The contract lives in two source files. \<^verbatim>\<open>server/api/routers/urlSummary.ts\<close> declares the
  tRPC procedures \<^verbatim>\<open>list\<close> and \<^verbatim>\<open>create\<close>; \<^verbatim>\<open>app/page.tsx\<close> declares the form's own
  \<^verbatim>\<open>urlSchema\<close> and its submit handler. The table comes from the migration
  (\<^verbatim>\<open>CREATE TABLE "UrlSummary"\<close>).

  Three things the procedures call are library code and not part of the repository: the
  URL parser behind zod's \<^verbatim>\<open>url()\<close>, zod's check runner, and the Prisma client with the
  PostgreSQL table behind it. The verdict of the URL parser and the size limits of the
  database are parameters of the development; the rest is modelled by the few lines below
  that the two procedures depend on.
\<close>

subsection \<open>Strings\<close>

text \<open>A string is a list of characters, a character standing for a code unit below 256.\<close>

text \<open>\<^verbatim>\<open>String.prototype.startsWith\<close>: the receiver begins with the given text.\<close>

definition startsWith :: "string \<Rightarrow> string \<Rightarrow> bool" where
  "startsWith s p = (take (length p) s = p)"

text \<open>
  \<^verbatim>\<open>String.prototype.trim\<close>: white space and line terminators are removed from both ends.
  Below 256 these are tab, line feed, vertical tab, form feed, carriage return, space and
  the no-break space.
\<close>

definition is_space :: "char \<Rightarrow> bool" where
  "is_space c =
     (let n = (of_char c :: nat)
      in n = 9 \<or> n = 10 \<or> n = 11 \<or> n = 12 \<or> n = 13 \<or> n = 32 \<or> n = 160)"

definition trim :: "string \<Rightarrow> string" where
  "trim s = rev (dropWhile is_space (rev (dropWhile is_space s)))"

text \<open>
  The scheme of a URL is the text in front of its first colon (RFC 3986, section 3.1, and
  the scheme state of the URL standard's parser). The source has no such function: this one
  serves to state what the prefix test of the refinement implies.
\<close>

definition scheme_of :: "string \<Rightarrow> string" where
  "scheme_of s = takeWhile (\<lambda>c. c \<noteq> CHR '':'') s"

subsection \<open>The validation gate: the zod schemas\<close>

text \<open>
  An issue as zod reports it. \<open>invalid_type\<close> is raised by \<^verbatim>\<open>z.string()\<close> and
  \<^verbatim>\<open>z.object()\<close> on a value of another type, \<open>invalid_format\<close> by the \<^verbatim>\<open>url()\<close> check,
  \<open>custom\<close> by a \<^verbatim>\<open>refine\<close>, with the message the source gives it.
\<close>

datatype issue = invalid_type | invalid_format | custom string

text \<open>The two rejection reasons of the contract, under their names there.\<close>

abbreviation InvalidUrl :: issue where
  "InvalidUrl \<equiv> invalid_format"

abbreviation SchemeNotAllowed :: issue where
  "SchemeNotAllowed \<equiv> custom ''Only HTTPS URLs are allowed''"

text \<open>A check looks at the value, raises an issue or none, and hands a value on: the one it
  was given, or one it has put in its place.\<close>

type_synonym check = "string \<Rightarrow> issue option \<times> string"

text \<open>
  \<^verbatim>\<open>.url()\<close>, as zod 4 has it: the value is trimmed and the trimmed string is given to the URL
  constructor. \<open>parses\<close> is the verdict of the constructor, a parameter of the development.
  When the constructor accepts, the trimmed string takes the place of the value; when it
  throws, the check raises \<open>invalid_format\<close> and the value stays as it was written.
\<close>

definition url :: "(string \<Rightarrow> bool) \<Rightarrow> check" where
  "url parses s =
     (let trimmed = trim s
      in if parses trimmed then (None, trimmed) else (Some invalid_format, s))"

text \<open>\<^verbatim>\<open>.refine(fn, { message })\<close>: the predicate must hold of the value; the value is not
  changed.\<close>

definition refine :: "(string \<Rightarrow> bool) \<Rightarrow> string \<Rightarrow> check" where
  "refine fn message s = (if fn s then (None, s) else (Some (custom message), s))"

text \<open>
  zod runs the checks of a schema in the order they were attached and collects the issues.
  A check is skipped only after an issue that aborts; the issues of a format check and of a
  refinement do not abort unless the schema asks for it with \<^verbatim>\<open>abort\<close>, and neither
  schema of the repository does. So every check runs, whatever the earlier ones found, each
  on the value the check before it handed on.
\<close>

fun runChecks :: "check list \<Rightarrow> string \<Rightarrow> issue list \<times> string" where
  "runChecks [] s = ([], s)"
| "runChecks (ch # chs) s =
     (case ch s of
        (r, v) \<Rightarrow>
          (case runChecks chs v of
             (is, out) \<Rightarrow> (case r of None \<Rightarrow> (is, out) | Some i \<Rightarrow> (i # is, out))))"

text \<open>\<^verbatim>\<open>safeParse\<close> of a string schema on a string: the issues, or the value the checks
  handed on.\<close>

definition safeParse :: "check list \<Rightarrow> string \<Rightarrow> issue list + string" where
  "safeParse checks s =
     (case runChecks checks s of ([], out) \<Rightarrow> Inr out | (i # is, out) \<Rightarrow> Inl (i # is))"

text \<open>
  The form's schema, \<^verbatim>\<open>page.tsx\<close> lines 14 to 19:
  \<^verbatim>\<open>z.string().url().refine((url) => url.startsWith("https://"), { message: "Only HTTPS URLs are allowed" })\<close>
\<close>

definition urlSchema :: "(string \<Rightarrow> bool) \<Rightarrow> check list" where
  "urlSchema parses =
     [url parses, refine (\<lambda>url. startsWith url ''https://'') ''Only HTTPS URLs are allowed'']"

text \<open>
  The form's submit handler, \<^verbatim>\<open>onSubmit\<close> in \<^verbatim>\<open>page.tsx\<close>: on failure it shows the message
  of the first issue (\<^verbatim>\<open>issues[0]?.message\<close>), or a fixed text if there were none
  (\<^verbatim>\<open>?? "Invalid URL"\<close>), and sends nothing; on success it calls the mutation with the parsed
  string as \<^verbatim>\<open>url\<close> and no summary.
\<close>

datatype submit = ShowError issue | ShowFallback | Mutate string

definition onSubmit :: "(string \<Rightarrow> bool) \<Rightarrow> string \<Rightarrow> submit" where
  "onSubmit parses s =
     (case safeParse (urlSchema parses) s of
        Inl is \<Rightarrow> (case is of [] \<Rightarrow> ShowFallback | i # _ \<Rightarrow> ShowError i)
      | Inr data \<Rightarrow> Mutate data)"

text \<open>
  What a caller can send to the server. The input schema of \<^verbatim>\<open>create\<close> reads two keys of
  an object; for each it tells apart a missing value, a string, and a value of any other
  type (null, a number, an object and so on). Other keys are dropped by \<^verbatim>\<open>z.object\<close>.
\<close>

datatype jsval = Undefined | Str string | NonString

datatype raw_input = NotAnObject | Obj jsval jsval

text \<open>The parsed input of \<^verbatim>\<open>create\<close>: \<^verbatim>\<open>{ url: string, summary?: string }\<close>.\<close>

record create_input =
  input_url :: string
  input_summary :: "string option"

text \<open>
  The \<^verbatim>\<open>url\<close> field of the input schema, \<^verbatim>\<open>urlSummary.ts\<close> lines 16 to 22: the same chain of
  calls, written a second time.
\<close>

definition create_url_schema :: "(string \<Rightarrow> bool) \<Rightarrow> check list" where
  "create_url_schema parses =
     [url parses, refine (\<lambda>url. startsWith url ''https://'') ''Only HTTPS URLs are allowed'']"

text \<open>\<^verbatim>\<open>z.string()\<close> with its checks, on any value: a value that is no string is an
  \<open>invalid_type\<close> issue, which aborts, so no check runs on it.\<close>

definition parse_string :: "check list \<Rightarrow> jsval \<Rightarrow> issue list + string" where
  "parse_string checks v =
     (case v of Str s \<Rightarrow> safeParse checks s | _ \<Rightarrow> Inl [invalid_type])"

text \<open>\<^verbatim>\<open>z.string().optional()\<close>: a missing value passes as it is, anything else must be a
  string; no check is attached.\<close>

definition parse_summary :: "jsval \<Rightarrow> issue list + string option" where
  "parse_summary v =
     (case v of Undefined \<Rightarrow> Inr None | Str s \<Rightarrow> Inr (Some s) | NonString \<Rightarrow> Inl [invalid_type])"

text \<open>\<^verbatim>\<open>z.object({ url: ..., summary: ... })\<close>: every field is parsed and the issues of all
  fields are collected; the object is returned when there is none.\<close>

definition issues_of :: "issue list + 'a \<Rightarrow> issue list" where
  "issues_of r = (case r of Inl is \<Rightarrow> is | Inr _ \<Rightarrow> [])"

definition parse_create_input :: "(string \<Rightarrow> bool) \<Rightarrow> raw_input \<Rightarrow> issue list + create_input" where
  "parse_create_input parses raw =
     (case raw of
        NotAnObject \<Rightarrow> Inl [invalid_type]
      | Obj u sm \<Rightarrow>
          (case (parse_string (create_url_schema parses) u, parse_summary sm) of
             (Inr s, Inr t) \<Rightarrow> Inr \<lparr>input_url = s, input_summary = t\<rparr>
           | (ru, rs) \<Rightarrow> Inl (issues_of ru @ issues_of rs)))"

subsection \<open>The record store\<close>

text \<open>A row of the table \<^verbatim>\<open>"UrlSummary"\<close>. Timestamps are milliseconds
  (\<^verbatim>\<open>TIMESTAMP(3)\<close>); \<^verbatim>\<open>summary\<close> is the only nullable column.\<close>

record UrlSummary =
  row_id :: string
  row_url :: string
  summary :: "string option"
  createdAt :: int
  updatedAt :: int

text \<open>The table is the list of its rows, in the order they were inserted.\<close>

type_synonym store = "UrlSummary list"

text \<open>
  A procedure fails with a tRPC error: \<open>BAD_REQUEST\<close> carries the issues of the input
  schema; an exception of the Prisma client surfaces as \<open>INTERNAL_SERVER_ERROR\<close>.
\<close>

datatype error = BAD_REQUEST "issue list" | INTERNAL_SERVER_ERROR

text \<open>
  What PostgreSQL takes into the row. A \<^verbatim>\<open>TEXT\<close> value cannot hold the character U+0000.
  The sizes are bounded as well: an entry of the primary key or of \<^verbatim>\<open>"UrlSummary_url_idx"\<close>
  must stay under the limit of a btree entry (about 2704 bytes, counted after compression),
  and a field has a largest size. \<open>limits\<close> is the verdict of the database on the sizes of a
  row, the second parameter of the development.
\<close>

definition text_ok :: "string \<Rightarrow> bool" where
  "text_ok s = (CHR 0x00 \<notin> set s)"

definition storable :: "(UrlSummary \<Rightarrow> bool) \<Rightarrow> UrlSummary \<Rightarrow> bool" where
  "storable limits row =
     (text_ok (row_id row) \<and> text_ok (row_url row) \<and>
      (case summary row of None \<Rightarrow> True | Some t \<Rightarrow> text_ok t) \<and> limits row)"

text \<open>
  \<^verbatim>\<open>prisma.urlSummary.create({ data: { url, summary } })\<close>. The id (Prisma's \<^verbatim>\<open>cuid()\<close>
  default) and the time of the insert come from outside the procedure and are arguments
  here. The primary key lets no second row take an id in use, and the database refuses a
  row it cannot store: the insert then throws and the table is unchanged. A summary left
  out is stored as NULL. No constraint of the table looks at the \<^verbatim>\<open>url\<close> or the
  \<^verbatim>\<open>summary\<close> of the rows already there.
\<close>

definition prisma_create :: "(UrlSummary \<Rightarrow> bool) \<Rightarrow> string \<Rightarrow> int \<Rightarrow> store \<Rightarrow> create_input \<Rightarrow> (error + UrlSummary) \<times> store" where
  "prisma_create limits newId now db data =
     (let row = \<lparr>row_id = newId, row_url = input_url data, summary = input_summary data,
                 createdAt = now, updatedAt = now\<rparr>
      in if newId \<in> set (map row_id db) then (Inl INTERNAL_SERVER_ERROR, db)
         else if \<not> storable limits row then (Inl INTERNAL_SERVER_ERROR, db)
         else (Inr row, db @ [row]))"

text \<open>
  The procedure \<^verbatim>\<open>create\<close>: tRPC parses the caller's input with the input schema and runs
  the mutation only on the parsed value; when the schema reports issues the mutation does
  not run.
\<close>

definition create :: "(string \<Rightarrow> bool) \<Rightarrow> (UrlSummary \<Rightarrow> bool) \<Rightarrow> string \<Rightarrow> int \<Rightarrow> store \<Rightarrow> raw_input \<Rightarrow> (error + UrlSummary) \<times> store" where
  "create parses limits newId now db raw =
     (case parse_create_input parses raw of
        Inl is \<Rightarrow> (Inl (BAD_REQUEST is), db)
      | Inr data \<Rightarrow> prisma_create limits newId now db data)"

text \<open>
  The procedure \<^verbatim>\<open>list\<close>:
  \<^verbatim>\<open>prisma.urlSummary.findMany({ orderBy: { createdAt: "desc" }, take: 20 })\<close>.
  The query orders by \<^verbatim>\<open>createdAt\<close> alone, so it fixes the answer up to the order of rows
  with equal \<^verbatim>\<open>createdAt\<close>: an answer is the first 20 rows of some arrangement of the whole
  table in which \<^verbatim>\<open>createdAt\<close> never increases.
\<close>

definition newest_first :: "UrlSummary list \<Rightarrow> bool" where
  "newest_first rs = sorted_wrt (\<lambda>a b. createdAt b \<le> createdAt a) rs"

definition list :: "store \<Rightarrow> UrlSummary list \<Rightarrow> bool" where
  "list db rs = (\<exists>full. mset full = mset db \<and> newest_first full \<and> rs = take 20 full)"

text \<open>One arrangement the database may choose: insertion sort, newest first, a new row
  going behind the rows of its own \<^verbatim>\<open>createdAt\<close>.\<close>

fun insert_desc :: "UrlSummary \<Rightarrow> UrlSummary list \<Rightarrow> UrlSummary list" where
  "insert_desc r [] = [r]"
| "insert_desc r (x # xs) =
     (if createdAt x < createdAt r then r # x # xs else x # insert_desc r xs)"

definition arrange :: "store \<Rightarrow> UrlSummary list" where
  "arrange db = foldr insert_desc db []"

text \<open>A sequence of calls to the two public procedures, each \<^verbatim>\<open>create\<close> with the id and
  the time its insert would get, run against the table from left to right.\<close>

datatype call = ListCall | CreateCall string int raw_input

fun step :: "(string \<Rightarrow> bool) \<Rightarrow> (UrlSummary \<Rightarrow> bool) \<Rightarrow> store \<Rightarrow> call \<Rightarrow> store" where
  "step parses limits db ListCall = db"
| "step parses limits db (CreateCall newId now raw) = snd (create parses limits newId now db raw)"

definition run :: "(string \<Rightarrow> bool) \<Rightarrow> (UrlSummary \<Rightarrow> bool) \<Rightarrow> store \<Rightarrow> call list \<Rightarrow> store" where
  "run parses limits db calls = foldl (step parses limits) db calls"

text \<open>The row an accepted \<^verbatim>\<open>create\<close> inserts, from the validated url, the parsed summary and
  the id and time of the insert.\<close>

definition new_row :: "string \<Rightarrow> string option \<Rightarrow> string \<times> int \<Rightarrow> UrlSummary" where
  "new_row u t e = \<lparr>row_id = fst e, row_url = u, summary = t, createdAt = snd e, updatedAt = snd e\<rparr>"

text \<open>The same input sent to \<^verbatim>\<open>create\<close> once for every id and time of the list, one call
  after the other: the answers and the table after the last call.\<close>

fun create_each :: "(string \<Rightarrow> bool) \<Rightarrow> (UrlSummary \<Rightarrow> bool) \<Rightarrow> store \<Rightarrow> raw_input \<Rightarrow> (string \<times> int) list \<Rightarrow> (error + UrlSummary) list \<times> store" where
  "create_each parses limits db raw [] = ([], db)"
| "create_each parses limits db raw ((newId, now) # env) =
     (case create parses limits newId now db raw of
        (r, db') \<Rightarrow>
          (case create_each parses limits db' raw env of (rs, db'') \<Rightarrow> (r # rs, db'')))"

text \<open>A table of 21 rows, created one millisecond apart, to evaluate \<^verbatim>\<open>list\<close> on more rows than
  it returns.\<close>

definition sample_row :: "nat \<Rightarrow> UrlSummary" where
  "sample_row n = \<lparr>row_id = replicate (Suc n) CHR ''c'', row_url = ''https://example.com'',
                    summary = None, createdAt = int n, updatedAt = int n\<rparr>"

definition sample_db :: store where
  "sample_db = map sample_row [0..<21]"

subsection \<open>Stand-ins for the URL parser and the size limits\<close>

text \<open>
  The theorems below hold for every verdict \<open>parses\<close> and every verdict \<open>limits\<close>. To
  evaluate them at concrete strings we use the first stage of the URL parser alone: without
  a base URL, a string parses only if it opens with a scheme, an ASCII letter followed by
  letters, digits, \<^verbatim>\<open>+\<close>, \<^verbatim>\<open>-\<close> or \<^verbatim>\<open>.\<close> up to a colon. On the trimmed strings it is
  applied to in this theory the full parser agrees with this stage. For the sizes we use
  rows whose texts have at most 1000 characters each, which are within every limit.
\<close>

definition small_row :: "UrlSummary \<Rightarrow> bool" where
  "small_row r =
     (length (row_id r) \<le> 1000 \<and> length (row_url r) \<le> 1000 \<and>
      (case summary r of None \<Rightarrow> True | Some t \<Rightarrow> length t \<le> 1000))"

definition is_alpha :: "char \<Rightarrow> bool" where
  "is_alpha c = (let n = (of_char c :: nat) in (65 \<le> n \<and> n \<le> 90) \<or> (97 \<le> n \<and> n \<le> 122))"

definition is_scheme_char :: "char \<Rightarrow> bool" where
  "is_scheme_char c =
     (let n = (of_char c :: nat) in is_alpha c \<or> (48 \<le> n \<and> n \<le> 57) \<or> n = 43 \<or> n = 45 \<or> n = 46)"

definition has_scheme :: "string \<Rightarrow> bool" where
  "has_scheme s =
     (case s of
        [] \<Rightarrow> False
      | c # cs \<Rightarrow> is_alpha c \<and> (case dropWhile is_scheme_char cs of [] \<Rightarrow> False | d # _ \<Rightarrow> d = CHR '':''))"

section \<open>Properties\<close>

subsection \<open>What the gate decides\<close>

lemma startsWith_https_split:
  assumes "startsWith s ''https://''"
  shows "\<exists>rest. s = ''https://'' @ rest"
  using assms unfolding startsWith_def by (metis append_take_drop_id)

lemma startsWith_https_scheme:
  assumes "startsWith s ''https://''"
  shows "scheme_of s = ''https''"
proof -
  from startsWith_https_split [OF assms] obtain rest where "s = ''https://'' @ rest" by blast
  then show ?thesis by (simp add: scheme_of_def)
qed

lemma trim_no_space_ends:
  assumes "s \<noteq> []" and "\<not> is_space (hd s)" and "\<not> is_space (last s)"
  shows "trim s = s"
proof -
  have a: "dropWhile is_space s = s" using assms(1,2) by (cases s) simp_all
  have "rev s \<noteq> []" and "\<not> is_space (hd (rev s))"
    using assms(1,3) by (simp_all add: hd_rev)
  then have "dropWhile is_space (rev s) = rev s" by (cases "rev s") simp_all
  then show ?thesis using a by (simp add: trim_def)
qed

lemma safeParse_create_url_schema:
  "safeParse (create_url_schema parses) s =
     (if parses (trim s)
      then (if startsWith (trim s) ''https://'' then Inr (trim s) else Inl [SchemeNotAllowed])
      else (if startsWith s ''https://'' then Inl [InvalidUrl] else Inl [InvalidUrl, SchemeNotAllowed]))"
  by (simp add: safeParse_def create_url_schema_def url_def refine_def Let_def)

lemma safeParse_urlSchema:
  "safeParse (urlSchema parses) s =
     (if parses (trim s)
      then (if startsWith (trim s) ''https://'' then Inr (trim s) else Inl [SchemeNotAllowed])
      else (if startsWith s ''https://'' then Inl [InvalidUrl] else Inl [InvalidUrl, SchemeNotAllowed]))"
  by (simp add: safeParse_def urlSchema_def url_def refine_def Let_def)

lemma parse_create_input_Inr:
  assumes "parse_create_input parses raw = Inr data"
  shows "parses (input_url data) \<and> startsWith (input_url data) ''https://'' \<and>
         (\<exists>s sm. raw = Obj (Str s) sm \<and> input_url data = trim s \<and>
                 parse_summary sm = Inr (input_summary data))"
  using assms
  by (auto simp: parse_create_input_def parse_string_def parse_summary_def safeParse_create_url_schema
           split: raw_input.splits jsval.splits sum.splits if_splits)

lemma parse_create_input_accepts:
  assumes "parses (trim s)" and "startsWith (trim s) ''https://''" and "parse_summary sm = Inr t"
  shows "parse_create_input parses (Obj (Str s) sm) = Inr \<lparr>input_url = trim s, input_summary = t\<rparr>"
  using assms by (simp add: parse_create_input_def parse_string_def safeParse_create_url_schema)

lemma create_accepted_input:
  assumes "parses (trim s)" and "startsWith (trim s) ''https://''" and "parse_summary sm = Inr t"
  shows "create parses limits newId now db (Obj (Str s) sm) =
           (if newId \<notin> set (map row_id db) \<and> storable limits (new_row (trim s) t (newId, now))
            then (Inr (new_row (trim s) t (newId, now)), db @ [new_row (trim s) t (newId, now)])
            else (Inl INTERNAL_SERVER_ERROR, db))"
  using assms
  by (simp add: create_def parse_create_input_accepts prisma_create_def Let_def new_row_def)

lemma create_accepts:
  assumes "parses (trim s)" and "startsWith (trim s) ''https://''" and "parse_summary sm = Inr t"
    and "newId \<notin> set (map row_id db)"
    and "storable limits \<lparr>row_id = newId, row_url = trim s, summary = t, createdAt = now, updatedAt = now\<rparr>"
  shows "create parses limits newId now db (Obj (Str s) sm) =
           (Inr \<lparr>row_id = newId, row_url = trim s, summary = t, createdAt = now, updatedAt = now\<rparr>,
            db @ [\<lparr>row_id = newId, row_url = trim s, summary = t, createdAt = now, updatedAt = now\<rparr>])"
  using assms by (simp add: create_def parse_create_input_accepts prisma_create_def Let_def)

lemma create_cases:
  "(\<exists>e. create parses limits newId now db raw = (Inl e, db)) \<or>
   (\<exists>s sm t. raw = Obj (Str s) sm \<and> parses (trim s) \<and> startsWith (trim s) ''https://'' \<and>
      parse_summary sm = Inr t \<and> newId \<notin> set (map row_id db) \<and>
      storable limits \<lparr>row_id = newId, row_url = trim s, summary = t, createdAt = now, updatedAt = now\<rparr> \<and>
      create parses limits newId now db raw =
        (Inr \<lparr>row_id = newId, row_url = trim s, summary = t, createdAt = now, updatedAt = now\<rparr>,
         db @ [\<lparr>row_id = newId, row_url = trim s, summary = t, createdAt = now, updatedAt = now\<rparr>]))"
proof (cases "parse_create_input parses raw")
  case (Inl iss)
  then show ?thesis by (simp add: create_def)
next
  case (Inr data)
  from parse_create_input_Inr [OF Inr] obtain s sm where
    d: "parses (trim s)" "startsWith (trim s) ''https://''"
       "raw = Obj (Str s) sm" "parse_summary sm = Inr (input_summary data)"
       "input_url data = trim s"
    by auto
  show ?thesis
  proof (cases "newId \<notin> set (map row_id db) \<and>
      storable limits \<lparr>row_id = newId, row_url = trim s, summary = input_summary data,
                        createdAt = now, updatedAt = now\<rparr>")
    case False
    then show ?thesis using Inr d(5) by (auto simp: create_def prisma_create_def Let_def)
  next
    case True
    then show ?thesis
      using d create_accepts [of parses s sm "input_summary data" newId db limits now] by blast
  qed
qed

lemma step_keeps_gate:
  assumes "\<forall>r \<in> set db. parses (row_url r) \<and> startsWith (row_url r) ''https://''"
  shows "\<forall>r \<in> set (step parses limits db c). parses (row_url r) \<and> startsWith (row_url r) ''https://''"
proof (cases c)
  case ListCall
  then show ?thesis using assms by simp
next
  case (CreateCall newId now raw)
  from create_cases [of parses limits newId now db raw] show ?thesis
    using assms CreateCall by auto
qed

lemma run_keeps_gate:
  assumes "\<forall>r \<in> set db. parses (row_url r) \<and> startsWith (row_url r) ''https://''"
  shows "\<forall>r \<in> set (run parses limits db calls). parses (row_url r) \<and> startsWith (row_url r) ''https://''"
  using assms unfolding run_def
proof (induction calls arbitrary: db)
  case Nil
  then show ?case by simp
next
  case (Cons c calls)
  from step_keeps_gate [OF Cons.prems]
  have "\<forall>r \<in> set (step parses limits db c). parses (row_url r) \<and> startsWith (row_url r) ''https://''" .
  from Cons.IH [OF this] show ?case by simp
qed

lemma has_scheme_simps:
  "has_scheme ''https://example.com/article''" "has_scheme ''https://example.com''"
  "has_scheme ''http://example.com''" "\<not> has_scheme ''not-a-url''" "has_scheme ''https:example.com''"
  "has_scheme ''ftp://example.com''" "\<not> has_scheme ''example.com''"
  "has_scheme ''https://example.com/a''" "has_scheme ''https://example.com/b''"
  "has_scheme ''https:example.com/article''" "has_scheme ''https:example.com/page''"
  by (simp_all add: has_scheme_def is_alpha_def is_scheme_char_def)

lemma trim_simps:
  "trim ''https://example.com/article'' = ''https://example.com/article''"
  "trim ''https://example.com'' = ''https://example.com''"
  "trim ''http://example.com'' = ''http://example.com''"
  "trim ''not-a-url'' = ''not-a-url''"
  "trim ''https:example.com'' = ''https:example.com''"
  "trim ''ftp://example.com'' = ''ftp://example.com''"
  "trim ''example.com'' = ''example.com''"
  "trim ''https://example.com/a'' = ''https://example.com/a''"
  "trim ''https://example.com/b'' = ''https://example.com/b''"
  "trim ''https:example.com/article'' = ''https:example.com/article''"
  "trim ''https:example.com/page'' = ''https:example.com/page''"
  "trim '' https://example.com'' = ''https://example.com''"
  "trim ''https://example.com '' = ''https://example.com''"
  by (simp_all add: trim_def is_space_def)

lemmas eval_create =
  create_def parse_create_input_def parse_string_def parse_summary_def issues_of_def
  safeParse_create_url_schema trim_simps has_scheme_simps startsWith_def
  prisma_create_def storable_def text_ok_def small_row_def Let_def

subsection \<open>Stored URLs\<close>

text \<open>
  C1. Whatever the callers send, in whatever sequence of \<^verbatim>\<open>create\<close> and \<^verbatim>\<open>list\<close> calls, every
  row of the table has a \<^verbatim>\<open>url\<close> that the URL parser accepts and that begins with
  \<^verbatim>\<open>https://\<close>, so that its scheme is \<^verbatim>\<open>https\<close>: the mutation runs only on an input the
  schema has let through.
\<close>

theorem stored_url_valid_https:
  "\<forall>r \<in> set (run parses limits [] calls).
     parses (row_url r) \<and> startsWith (row_url r) ''https://'' \<and> scheme_of (row_url r) = ''https''"
  using run_keeps_gate [of "[]" parses limits calls] startsWith_https_scheme by auto

theorem stored_url_valid_https_witness:
  "run has_scheme small_row []
     [CreateCall ''c1'' 1 (Obj (Str ''http://example.com'') Undefined),
      CreateCall ''c2'' 2 (Obj NonString (Str ''https://example.com'')),
      CreateCall ''c3'' 3 NotAnObject,
      CreateCall ''c4'' 4 (Obj (Str ''not-a-url'') Undefined),
      ListCall,
      CreateCall ''c5'' 5 (Obj (Str ''https://example.com'') Undefined)]
   = [\<lparr>row_id = ''c5'', row_url = ''https://example.com'', summary = None, createdAt = 5, updatedAt = 5\<rparr>]
   \<and> has_scheme ''https://example.com'' \<and> startsWith ''https://example.com'' ''https://''
   \<and> scheme_of ''https://example.com'' = ''https''"
  using stored_url_valid_https [of has_scheme small_row
     "[CreateCall ''c1'' 1 (Obj (Str ''http://example.com'') Undefined),
      CreateCall ''c2'' 2 (Obj NonString (Str ''https://example.com'')),
      CreateCall ''c3'' 3 NotAnObject,
      CreateCall ''c4'' 4 (Obj (Str ''not-a-url'') Undefined),
      ListCall,
      CreateCall ''c5'' 5 (Obj (Str ''https://example.com'') Undefined)]"]
  by (simp add: run_def eval_create scheme_of_def)

subsection \<open>Rejection reasons\<close>

lemma not_https_scheme:
  "scheme_of s \<noteq> ''https'' \<Longrightarrow> \<not> startsWith s ''https://''"
  using startsWith_https_scheme by blast

text \<open>
  C2, as the code has it. The URL check looks at the trimmed string. The two checks run in
  the order they are written and the first issue reported is that of the first check that
  fails: a string whose trimmed form the URL parser refuses gets \<open>InvalidUrl\<close> first, and
  the form shows that issue; a string whose trimmed form parses and has a scheme other than
  \<^verbatim>\<open>https\<close> gets \<open>SchemeNotAllowed\<close> alone. The two reasons differ. The refinement runs on a
  refused string too: such a string gets \<open>SchemeNotAllowed\<close> as a second issue unless it
  begins, as written, with \<^verbatim>\<open>https://\<close>.
\<close>

theorem gate_rejections_in_order:
  "(\<not> parses (trim s) \<longrightarrow>
      safeParse (create_url_schema parses) s =
        Inl (InvalidUrl # (if startsWith s ''https://'' then [] else [SchemeNotAllowed])) \<and>
      onSubmit parses s = ShowError InvalidUrl) \<and>
   (parses (trim s) \<and> scheme_of (trim s) \<noteq> ''https'' \<longrightarrow>
      safeParse (create_url_schema parses) s = Inl [SchemeNotAllowed] \<and>
      onSubmit parses s = ShowError SchemeNotAllowed) \<and>
   InvalidUrl \<noteq> SchemeNotAllowed"
  using not_https_scheme [of "trim s"]
  by (auto simp: safeParse_create_url_schema safeParse_urlSchema onSubmit_def)

theorem gate_rejections_in_order_witness:
  "\<not> has_scheme (trim ''example.com'') \<and>
   safeParse (create_url_schema has_scheme) ''example.com'' = Inl [InvalidUrl, SchemeNotAllowed] \<and>
   onSubmit has_scheme ''example.com'' = ShowError InvalidUrl \<and>
   has_scheme (trim ''http://example.com'') \<and> scheme_of (trim ''http://example.com'') \<noteq> ''https'' \<and>
   safeParse (create_url_schema has_scheme) ''http://example.com'' = Inl [SchemeNotAllowed] \<and>
   onSubmit has_scheme ''http://example.com'' = ShowError SchemeNotAllowed"
proof -
  have a: "\<not> has_scheme (trim ''example.com'')"
    by (simp add: trim_simps has_scheme_simps)
  have b: "has_scheme (trim ''http://example.com'') \<and> scheme_of (trim ''http://example.com'') \<noteq> ''https''"
    by (simp add: trim_simps has_scheme_simps scheme_of_def)
  have c: "\<not> startsWith ''example.com'' ''https://''"
    by (simp add: startsWith_def)
  show ?thesis
    using a b c gate_rejections_in_order [of has_scheme "''example.com''"]
      gate_rejections_in_order [of has_scheme "''http://example.com''"]
    by auto
qed

text \<open>
  C2 as stated fails: \<^verbatim>\<open>not-a-url\<close> does not parse, and the answer of \<^verbatim>\<open>create\<close> carries the
  scheme issue next to the format issue. And a string that opens with a blank, so that the
  text in front of its first colon is not \<^verbatim>\<open>https\<close>, is accepted, in its trimmed form.
\<close>

theorem scheme_error_for_invalid_string:
  "\<not> has_scheme ''not-a-url'' \<and>
   safeParse (create_url_schema has_scheme) ''not-a-url'' = Inl [InvalidUrl, SchemeNotAllowed] \<and>
   create has_scheme small_row ''c1'' 1 [] (Obj (Str ''not-a-url'') Undefined)
     = (Inl (BAD_REQUEST [InvalidUrl, SchemeNotAllowed]), []) \<and>
   scheme_of '' https://example.com'' \<noteq> ''https'' \<and>
   safeParse (create_url_schema has_scheme) '' https://example.com'' = Inr ''https://example.com''"
  by (simp add: eval_create scheme_of_def)

subsection \<open>Acceptance\<close>

text \<open>
  C3 as stated fails: \<^verbatim>\<open>https:example.com\<close> parses as a URL (the parser supplies the missing
  slashes) and its scheme is \<^verbatim>\<open>https\<close>, but it does not begin with \<^verbatim>\<open>https://\<close> and the
  refinement rejects it. And a string the gate accepts does not always come back as it
  was: a blank at its end is gone from the result and from the row.
\<close>

theorem valid_https_scheme_rejected:
  "has_scheme ''https:example.com'' \<and> scheme_of ''https:example.com'' = ''https'' \<and>
   safeParse (create_url_schema has_scheme) ''https:example.com'' = Inl [SchemeNotAllowed] \<and>
   create has_scheme small_row ''c1'' 1 [] (Obj (Str ''https:example.com'') Undefined)
     = (Inl (BAD_REQUEST [SchemeNotAllowed]), []) \<and>
   safeParse (create_url_schema has_scheme) ''https://example.com '' = Inr ''https://example.com'' \<and>
   create has_scheme small_row ''c1'' 1 [] (Obj (Str ''https://example.com '') Undefined)
     = (Inr \<lparr>row_id = ''c1'', row_url = ''https://example.com'', summary = None, createdAt = 1, updatedAt = 1\<rparr>,
        [\<lparr>row_id = ''c1'', row_url = ''https://example.com'', summary = None, createdAt = 1, updatedAt = 1\<rparr>])"
  by (simp add: eval_create scheme_of_def)

text \<open>
  C3, as the code has it. A string whose trimmed form parses as a URL and begins with
  \<^verbatim>\<open>https://\<close> has, trimmed, the scheme \<^verbatim>\<open>https\<close>; it passes both schemas and comes back
  trimmed, which is as it was when no white space stands at its end. \<^verbatim>\<open>create\<close> with it
  succeeds whenever the id is not in use and the database can store the row, and the new
  row's \<^verbatim>\<open>url\<close> is the trimmed string; otherwise it fails and the table is as before.
\<close>

theorem https_prefix_accepted_trimmed:
  assumes "parses (trim s)" and "startsWith (trim s) ''https://''"
  shows "scheme_of (trim s) = ''https'' \<and>
         safeParse (create_url_schema parses) s = Inr (trim s) \<and>
         onSubmit parses s = Mutate (trim s) \<and>
         (\<not> is_space (hd s) \<and> \<not> is_space (last s) \<longrightarrow> trim s = s) \<and>
         create parses limits newId now db (Obj (Str s) Undefined) =
           (if newId \<notin> set (map row_id db) \<and> storable limits (new_row (trim s) None (newId, now))
            then (Inr (new_row (trim s) None (newId, now)), db @ [new_row (trim s) None (newId, now)])
            else (Inl INTERNAL_SERVER_ERROR, db)) \<and>
         row_url (new_row (trim s) None (newId, now)) = trim s"
proof -
  have ne: "s \<noteq> []"
  proof
    assume "s = []"
    then have "trim s = []" by (simp add: trim_def)
    then show False using assms(2) by (simp add: startsWith_def)
  qed
  have t: "\<not> is_space (hd s) \<and> \<not> is_space (last s) \<longrightarrow> trim s = s"
    using trim_no_space_ends [OF ne] by blast
  have c: "create parses limits newId now db (Obj (Str s) Undefined) =
           (if newId \<notin> set (map row_id db) \<and> storable limits (new_row (trim s) None (newId, now))
            then (Inr (new_row (trim s) None (newId, now)), db @ [new_row (trim s) None (newId, now)])
            else (Inl INTERNAL_SERVER_ERROR, db))"
    using assms by (intro create_accepted_input) (simp_all add: parse_summary_def)
  show ?thesis
    using assms startsWith_https_scheme [of "trim s"] t c
    by (simp add: safeParse_create_url_schema safeParse_urlSchema onSubmit_def new_row_def)
qed

theorem https_prefix_accepted_trimmed_witness:
  "has_scheme (trim ''https://example.com '') \<and> startsWith (trim ''https://example.com '') ''https://'' \<and>
   safeParse (create_url_schema has_scheme) ''https://example.com '' = Inr ''https://example.com'' \<and>
   onSubmit has_scheme ''https://example.com '' = Mutate ''https://example.com'' \<and>
   has_scheme (trim ''https://example.com'') \<and> startsWith (trim ''https://example.com'') ''https://'' \<and>
   \<not> is_space (hd ''https://example.com'') \<and> \<not> is_space (last ''https://example.com'') \<and>
   safeParse (create_url_schema has_scheme) ''https://example.com'' = Inr ''https://example.com'' \<and>
   ''c1'' \<notin> set (map row_id []) \<and>
   storable small_row (new_row ''https://example.com'' None (''c1'', 1)) \<and>
   create has_scheme small_row ''c1'' 1 [] (Obj (Str ''https://example.com'') Undefined) =
     (Inr \<lparr>row_id = ''c1'', row_url = ''https://example.com'', summary = None, createdAt = 1, updatedAt = 1\<rparr>,
      [\<lparr>row_id = ''c1'', row_url = ''https://example.com'', summary = None, createdAt = 1, updatedAt = 1\<rparr>])"
proof -
  have a: "has_scheme (trim ''https://example.com '') \<and> startsWith (trim ''https://example.com '') ''https://''"
    by (simp add: trim_simps has_scheme_simps startsWith_def)
  have b: "has_scheme (trim ''https://example.com'') \<and> startsWith (trim ''https://example.com'') ''https://''"
    by (simp add: trim_simps has_scheme_simps startsWith_def)
  have c: "\<not> is_space (hd ''https://example.com'') \<and> \<not> is_space (last ''https://example.com'')"
    by (simp add: is_space_def)
  have d: "''c1'' \<notin> set (map row_id []) \<and> storable small_row (new_row ''https://example.com'' None (''c1'', 1))"
    by (simp add: storable_def text_ok_def small_row_def new_row_def)
  show ?thesis
    using a b c d
      https_prefix_accepted_trimmed [of has_scheme "''https://example.com ''"]
      https_prefix_accepted_trimmed [of has_scheme "''https://example.com''" small_row "''c1''" 1 "[]"]
    by (simp add: trim_simps new_row_def)
qed

subsection \<open>The form's check and the server's check\<close>

text \<open>
  C4. On every string the form's schema and the \<^verbatim>\<open>url\<close> field of the server's input schema
  return the same result: the same string when they accept, the same issues in the same
  order when they reject. The server's answer to the same string is the same verdict again:
  a \<open>BAD_REQUEST\<close> with those issues, the one the form shows first, where the form shows
  an error, and the insert where the form submits. The form's fixed text is never shown.
\<close>

theorem client_server_same_gate:
  "safeParse (urlSchema parses) s = safeParse (create_url_schema parses) s \<and>
   parse_string (create_url_schema parses) (Str s) = safeParse (urlSchema parses) s \<and>
   parse_create_input parses (Obj (Str s) Undefined) =
     (case safeParse (urlSchema parses) s of
        Inl iss \<Rightarrow> Inl iss
      | Inr data \<Rightarrow> Inr \<lparr>input_url = data, input_summary = None\<rparr>) \<and>
   (case onSubmit parses s of
      ShowError i \<Rightarrow>
        (\<exists>rest. safeParse (urlSchema parses) s = Inl (i # rest) \<and>
           create parses limits newId now db (Obj (Str s) Undefined) = (Inl (BAD_REQUEST (i # rest)), db))
    | ShowFallback \<Rightarrow> False
    | Mutate data \<Rightarrow>
        create parses limits newId now db (Obj (Str s) Undefined) =
          prisma_create limits newId now db \<lparr>input_url = data, input_summary = None\<rparr>)"
  by (simp add: safeParse_create_url_schema safeParse_urlSchema parse_string_def
        parse_create_input_def parse_summary_def issues_of_def create_def onSubmit_def)

theorem client_server_same_gate_witness:
  "safeParse (urlSchema has_scheme) ''ftp://example.com'' = Inl [SchemeNotAllowed] \<and>
   safeParse (create_url_schema has_scheme) ''ftp://example.com'' = Inl [SchemeNotAllowed] \<and>
   onSubmit has_scheme ''ftp://example.com'' = ShowError SchemeNotAllowed \<and>
   create has_scheme small_row ''c1'' 1 [] (Obj (Str ''ftp://example.com'') Undefined) =
     (Inl (BAD_REQUEST [SchemeNotAllowed]), [])"
  using client_server_same_gate [of has_scheme "''ftp://example.com''" small_row "''c1''" 1 "[]"]
  by (simp add: safeParse_urlSchema safeParse_create_url_schema trim_simps has_scheme_simps
        startsWith_def onSubmit_def issues_of_def)

subsection \<open>Listing\<close>

lemma mset_insert_desc: "mset (insert_desc r xs) = add_mset r (mset xs)"
  by (induction xs) auto

lemma set_insert_desc: "set (insert_desc r xs) = insert r (set xs)"
  by (induction xs) auto

lemma newest_first_insert_desc:
  "newest_first xs \<Longrightarrow> newest_first (insert_desc r xs)"
  unfolding newest_first_def
  by (induction xs) (auto simp: set_insert_desc)

lemma mset_arrange: "mset (arrange db) = mset db"
  unfolding arrange_def by (induction db) (auto simp: mset_insert_desc)

lemma newest_first_arrange: "newest_first (arrange db)"
  unfolding arrange_def
  by (induction db) (auto simp: newest_first_insert_desc, simp add: newest_first_def)

lemma list_arrange: "list db (take 20 (arrange db))"
  unfolding list_def using mset_arrange newest_first_arrange by blast

lemma newest_first_keys:
  "newest_first xs \<longleftrightarrow> sorted (rev (map createdAt xs))"
  unfolding newest_first_def by (simp add: sorted_wrt_rev sorted_wrt_map flip: rev_map)

lemma arrangement_keys_unique:
  assumes "mset xs = mset ys" and "newest_first xs" and "newest_first ys"
  shows "map createdAt xs = map createdAt ys"
proof -
  have m: "mset (rev (map createdAt xs)) = mset (rev (map createdAt ys))"
    using assms(1) by (metis mset_map mset_rev)
  have "sort (rev (map createdAt ys)) = rev (map createdAt xs)"
    using m assms(2) by (intro properties_for_sort) (simp_all add: newest_first_keys)
  moreover have "sort (rev (map createdAt ys)) = rev (map createdAt ys)"
    using assms(3) by (intro properties_for_sort) (simp_all add: newest_first_keys)
  ultimately show ?thesis by simp
qed

lemma arrangement_unique:
  assumes "mset xs = mset ys" and "newest_first xs" and "newest_first ys"
    and "distinct (map createdAt ys)"
  shows "xs = ys"
proof -
  have s: "set xs = set ys" using assms(1) by (rule mset_eq_setD)
  have "inj_on createdAt (set ys)" using assms(4) by (simp add: distinct_map)
  then have "inj_on createdAt (set xs \<union> set ys)" using s by simp
  then show ?thesis
    using arrangement_keys_unique [OF assms(1-3)] by (simp add: inj_on_map_eq_map)
qed

lemma list_explicit:
  assumes "mset full = mset db" and "newest_first full"
  shows "list db (take 20 full)"
  using assms unfolding list_def by blast

lemma list_sorted:
  assumes "list db rs"
  shows "newest_first rs"
proof -
  from assms obtain full where f: "newest_first full" "rs = take 20 full"
    unfolding list_def by blast
  have "full = rs @ drop 20 full" using f(2) by simp
  then have "sorted_wrt (\<lambda>a b. createdAt b \<le> createdAt a) (rs @ drop 20 full)"
    using f(1) unfolding newest_first_def by simp
  then show ?thesis unfolding newest_first_def sorted_wrt_append by blast
qed

lemma list_whole_table:
  assumes "list db rs" and "length db \<le> 20"
  shows "mset rs = mset db"
proof -
  from assms(1) obtain full where f: "mset full = mset db" "rs = take 20 full"
    unfolding list_def by blast
  have "length full = length db" using f(1) by (rule mset_eq_length)
  then show ?thesis using f assms(2) by simp
qed

text \<open>
  C5. \<^verbatim>\<open>list\<close> always has an answer, and every answer has at most 20 rows (20 when the
  table has more), all of them rows of the table, in descending order of \<^verbatim>\<open>createdAt\<close>, and
  no row left out is newer than a row returned.
\<close>

theorem list_newest_at_most_20:
  "(\<exists>rs. list db rs) \<and>
   (\<forall>rs. list db rs \<longrightarrow>
      length rs \<le> 20 \<and> length rs = min 20 (length db) \<and> newest_first rs \<and>
      mset rs \<subseteq># mset db \<and>
      (\<forall>x \<in># mset db - mset rs. \<forall>y \<in> set rs. createdAt x \<le> createdAt y))"
proof (intro conjI allI impI)
  show "\<exists>rs. list db rs" using list_arrange by blast
next
  fix rs assume "list db rs"
  then obtain full where f: "mset full = mset db" "newest_first full" "rs = take 20 full"
    unfolding list_def by blast
  have len: "length full = length db" using f(1) by (rule mset_eq_length)
  have split: "full = rs @ drop 20 full" using f(3) by simp
  have srt: "sorted_wrt (\<lambda>a b. createdAt b \<le> createdAt a) (rs @ drop 20 full)"
    using f(2) split unfolding newest_first_def by simp
  have rest: "mset db - mset rs = mset (drop 20 full)"
  proof -
    have "mset db = mset rs + mset (drop 20 full)" using f(1) split by (metis mset_append)
    then show ?thesis by simp
  qed
  show "length rs \<le> 20" using f(3) by simp
  show "length rs = min 20 (length db)" using f(3) len by simp
  show "newest_first rs" using srt unfolding newest_first_def sorted_wrt_append by blast
  show "mset rs \<subseteq># mset db"
  proof -
    have "mset db = mset rs + mset (drop 20 full)" using f(1) split by (metis mset_append)
    then show ?thesis by simp
  qed
  show "\<forall>x \<in># mset db - mset rs. \<forall>y \<in> set rs. createdAt x \<le> createdAt y"
    using srt unfolding rest sorted_wrt_append by auto
qed

theorem list_newest_at_most_20_witness:
  "length sample_db = 21 \<and>
   list sample_db (take 20 (arrange sample_db)) \<and>
   length (take 20 (arrange sample_db)) = 20 \<and>
   newest_first (take 20 (arrange sample_db)) \<and>
   mset (take 20 (arrange sample_db)) \<subseteq># mset sample_db"
proof -
  have n: "length sample_db = 21" by (simp add: sample_db_def)
  have l: "list sample_db (take 20 (arrange sample_db))" by (rule list_arrange)
  show ?thesis
    using n l list_newest_at_most_20 [of sample_db] by auto
qed

text \<open>
  What the query leaves open. Two answers of \<^verbatim>\<open>list\<close> on the same table carry the same
  \<^verbatim>\<open>createdAt\<close> values in the same positions, and they are the same sequence when no two
  rows of the table share a \<^verbatim>\<open>createdAt\<close>. The order of rows that share one is the
  database's choice.
\<close>

lemma list_determined_up_to_ties:
  assumes "list db rs1" and "list db rs2"
  shows "map createdAt rs1 = map createdAt rs2 \<and> (distinct (map createdAt db) \<longrightarrow> rs1 = rs2)"
proof -
  from assms(1) obtain f1 where f1: "mset f1 = mset db" "newest_first f1" "rs1 = take 20 f1"
    unfolding list_def by blast
  from assms(2) obtain f2 where f2: "mset f2 = mset db" "newest_first f2" "rs2 = take 20 f2"
    unfolding list_def by blast
  have m: "mset f1 = mset f2" using f1(1) f2(1) by simp
  have k: "map createdAt f1 = map createdAt f2"
    using arrangement_keys_unique [OF m f1(2) f2(2)] .
  have "map createdAt rs1 = map createdAt rs2"
    using k f1(3) f2(3) by (simp add: take_map [symmetric])
  moreover have "rs1 = rs2" if d: "distinct (map createdAt db)"
  proof -
    have "mset (map createdAt f2) = mset (map createdAt db)" using f2(1) by (metis mset_map)
    then have "distinct (map createdAt f2)" using d by (metis mset_eq_imp_distinct_iff)
    from arrangement_unique [OF m f1(2) f2(2) this] show ?thesis using f1(3) f2(3) by simp
  qed
  ultimately show ?thesis by blast
qed

subsection \<open>Create, then list\<close>

lemma newest_row_first:
  assumes "mset full = mset (db @ [row])" and "newest_first full"
    and "\<forall>r \<in> set db. createdAt r < createdAt row"
  shows "\<exists>rest. full = row # rest"
proof (cases full)
  case Nil
  then show ?thesis using assms(1) by simp
next
  case (Cons x xs)
  have s: "set full = set db \<union> {row}" using mset_eq_setD [OF assms(1)] by simp
  have mem: "row \<in> set full" using s by simp
  have xin: "x \<in> set db \<union> {row}" using s Cons by auto
  show ?thesis
  proof (cases "x = row")
    case True
    then show ?thesis using Cons by simp
  next
    case False
    then have "x \<in> set db" using xin by simp
    then have lt: "createdAt x < createdAt row" using assms(3) by simp
    have "row \<in> set xs" using mem Cons False by simp
    then have "createdAt row \<le> createdAt x"
      using assms(2) Cons unfolding newest_first_def by simp
    then show ?thesis using lt by simp
  qed
qed

lemma newest_row_within:
  assumes m: "mset full = mset (db @ [row])" and n: "newest_first full"
    and few: "length (filter (\<lambda>r. createdAt row \<le> createdAt r) db) < k"
  shows "row \<in> set (take k full)"
proof -
  have "row \<in> set full" using mset_eq_setD [OF m] by simp
  then obtain pre post where sp: "full = pre @ row # post" by (meson split_list)
  have ge: "\<forall>x \<in> set pre. createdAt row \<le> createdAt x"
    using n unfolding sp newest_first_def sorted_wrt_append by simp
  have "mset pre + mset post = mset db" using m unfolding sp by simp
  then have sub: "mset pre \<subseteq># mset db" by (metis mset_subset_eq_add_left)
  have "filter (\<lambda>r. createdAt row \<le> createdAt r) pre = pre"
    using ge by (simp add: filter_id_conv)
  then have "length pre = size (mset (filter (\<lambda>r. createdAt row \<le> createdAt r) pre))"
    by simp
  also have "\<dots> = size (filter_mset (\<lambda>r. createdAt row \<le> createdAt r) (mset pre))"
    by (simp only: mset_filter)
  also have "\<dots> \<le> size (filter_mset (\<lambda>r. createdAt row \<le> createdAt r) (mset db))"
    using sub by (simp add: multiset_filter_mono size_mset_mono)
  also have "\<dots> = length (filter (\<lambda>r. createdAt row \<le> createdAt r) db)"
    by (simp flip: mset_filter)
  finally have "length pre < k" using few by simp
  then have "take k full = pre @ row # take (k - Suc (length pre)) post"
    unfolding sp by (simp add: take_Cons')
  then show ?thesis by simp
qed

text \<open>
  C6, as the code has it. After a successful \<^verbatim>\<open>create\<close>, every answer of \<^verbatim>\<open>list\<close> on the new
  table starts with the new row when every row already there was created strictly earlier;
  and the new row is in the answer when fewer than 20 of the rows already there were created
  at its time or later.
\<close>

theorem create_then_list_first:
  assumes c: "create parses limits newId now db raw = (Inr row, db')" and l: "list db' rs"
  shows "((\<forall>r \<in> set db. createdAt r < now) \<longrightarrow> rs \<noteq> [] \<and> hd rs = row) \<and>
         (length (filter (\<lambda>r. now \<le> createdAt r) db) < 20 \<longrightarrow> row \<in> set rs)"
proof -
  from create_cases [of parses limits newId now db raw] c
  have d: "db' = db @ [row]" and t: "createdAt row = now" by auto
  from l obtain full where f: "mset full = mset (db @ [row])" "newest_first full" "rs = take 20 full"
    unfolding list_def d by blast
  have "rs \<noteq> [] \<and> hd rs = row" if "\<forall>r \<in> set db. createdAt r < now"
  proof -
    from newest_row_first [OF f(1) f(2)] that t obtain rest where "full = row # rest" by auto
    then show ?thesis using f(3) by simp
  qed
  moreover have "row \<in> set rs" if "length (filter (\<lambda>r. now \<le> createdAt r) db) < 20"
    using newest_row_within [OF f(1) f(2), of 20] that t f(3) by simp
  ultimately show ?thesis by blast
qed

theorem create_then_list_first_witness:
  "create has_scheme small_row ''c2'' 9 
     [\<lparr>row_id = ''c1'', row_url = ''https://example.com'', summary = None, createdAt = 4, updatedAt = 4\<rparr>]
     (Obj (Str ''https://example.com/article'') Undefined)
   = (Inr \<lparr>row_id = ''c2'', row_url = ''https://example.com/article'', summary = None, createdAt = 9, updatedAt = 9\<rparr>,
      [\<lparr>row_id = ''c1'', row_url = ''https://example.com'', summary = None, createdAt = 4, updatedAt = 4\<rparr>,
       \<lparr>row_id = ''c2'', row_url = ''https://example.com/article'', summary = None, createdAt = 9, updatedAt = 9\<rparr>]) \<and>
   list [\<lparr>row_id = ''c1'', row_url = ''https://example.com'', summary = None, createdAt = 4, updatedAt = 4\<rparr>,
         \<lparr>row_id = ''c2'', row_url = ''https://example.com/article'', summary = None, createdAt = 9, updatedAt = 9\<rparr>]
        [\<lparr>row_id = ''c2'', row_url = ''https://example.com/article'', summary = None, createdAt = 9, updatedAt = 9\<rparr>,
         \<lparr>row_id = ''c1'', row_url = ''https://example.com'', summary = None, createdAt = 4, updatedAt = 4\<rparr>] \<and>
   hd [\<lparr>row_id = ''c2'', row_url = ''https://example.com/article'', summary = None, createdAt = 9, updatedAt = 9\<rparr>,
       \<lparr>row_id = ''c1'', row_url = ''https://example.com'', summary = None, createdAt = 4, updatedAt = 4\<rparr>]
   = \<lparr>row_id = ''c2'', row_url = ''https://example.com/article'', summary = None, createdAt = 9, updatedAt = 9\<rparr>"
  (is "?c \<and> ?l \<and> ?h")
proof -
  have c: ?c
    by (simp add: eval_create)
  have l: ?l
    using list_explicit [of
      "[\<lparr>row_id = ''c2'', row_url = ''https://example.com/article'', summary = None, createdAt = 9, updatedAt = 9\<rparr>,
        \<lparr>row_id = ''c1'', row_url = ''https://example.com'', summary = None, createdAt = 4, updatedAt = 4\<rparr>]"
      "[\<lparr>row_id = ''c1'', row_url = ''https://example.com'', summary = None, createdAt = 4, updatedAt = 4\<rparr>,
        \<lparr>row_id = ''c2'', row_url = ''https://example.com/article'', summary = None, createdAt = 9, updatedAt = 9\<rparr>]"]
    by (simp add: newest_first_def)
  show ?thesis
    using c l create_then_list_first [OF c l] by simp
qed

text \<open>
  C6 as stated fails: with one row created later than the new one (fewer than 20), the answer
  of \<^verbatim>\<open>list\<close> starts with that row, not with the row just created. A row created in the same
  millisecond as the new one (no row is later) may come first as well.
\<close>

theorem newer_row_stays_first:
  "length (filter (\<lambda>r. 3 < createdAt r)
      [\<lparr>row_id = ''c1'', row_url = ''https://example.com'', summary = None, createdAt = 5, updatedAt = 5\<rparr>]) = 1 \<and>
   create has_scheme small_row ''c2'' 3
     [\<lparr>row_id = ''c1'', row_url = ''https://example.com'', summary = None, createdAt = 5, updatedAt = 5\<rparr>]
     (Obj (Str ''https://example.com/article'') Undefined)
   = (Inr \<lparr>row_id = ''c2'', row_url = ''https://example.com/article'', summary = None, createdAt = 3, updatedAt = 3\<rparr>,
      [\<lparr>row_id = ''c1'', row_url = ''https://example.com'', summary = None, createdAt = 5, updatedAt = 5\<rparr>,
       \<lparr>row_id = ''c2'', row_url = ''https://example.com/article'', summary = None, createdAt = 3, updatedAt = 3\<rparr>]) \<and>
   list [\<lparr>row_id = ''c1'', row_url = ''https://example.com'', summary = None, createdAt = 5, updatedAt = 5\<rparr>,
         \<lparr>row_id = ''c2'', row_url = ''https://example.com/article'', summary = None, createdAt = 3, updatedAt = 3\<rparr>]
        [\<lparr>row_id = ''c1'', row_url = ''https://example.com'', summary = None, createdAt = 5, updatedAt = 5\<rparr>,
         \<lparr>row_id = ''c2'', row_url = ''https://example.com/article'', summary = None, createdAt = 3, updatedAt = 3\<rparr>] \<and>
   \<not> list [\<lparr>row_id = ''c1'', row_url = ''https://example.com'', summary = None, createdAt = 5, updatedAt = 5\<rparr>,
           \<lparr>row_id = ''c2'', row_url = ''https://example.com/article'', summary = None, createdAt = 3, updatedAt = 3\<rparr>]
          [\<lparr>row_id = ''c2'', row_url = ''https://example.com/article'', summary = None, createdAt = 3, updatedAt = 3\<rparr>,
           \<lparr>row_id = ''c1'', row_url = ''https://example.com'', summary = None, createdAt = 5, updatedAt = 5\<rparr>] \<and>
   hd [\<lparr>row_id = ''c1'', row_url = ''https://example.com'', summary = None, createdAt = 5, updatedAt = 5\<rparr>,
       \<lparr>row_id = ''c2'', row_url = ''https://example.com/article'', summary = None, createdAt = 3, updatedAt = 3\<rparr>]
   \<noteq> \<lparr>row_id = ''c2'', row_url = ''https://example.com/article'', summary = None, createdAt = 3, updatedAt = 3\<rparr> \<and>
   create has_scheme small_row ''c2'' 5
     [\<lparr>row_id = ''c1'', row_url = ''https://example.com'', summary = None, createdAt = 5, updatedAt = 5\<rparr>]
     (Obj (Str ''https://example.com/article'') Undefined)
   = (Inr \<lparr>row_id = ''c2'', row_url = ''https://example.com/article'', summary = None, createdAt = 5, updatedAt = 5\<rparr>,
      [\<lparr>row_id = ''c1'', row_url = ''https://example.com'', summary = None, createdAt = 5, updatedAt = 5\<rparr>,
       \<lparr>row_id = ''c2'', row_url = ''https://example.com/article'', summary = None, createdAt = 5, updatedAt = 5\<rparr>]) \<and>
   list [\<lparr>row_id = ''c1'', row_url = ''https://example.com'', summary = None, createdAt = 5, updatedAt = 5\<rparr>,
         \<lparr>row_id = ''c2'', row_url = ''https://example.com/article'', summary = None, createdAt = 5, updatedAt = 5\<rparr>]
        [\<lparr>row_id = ''c1'', row_url = ''https://example.com'', summary = None, createdAt = 5, updatedAt = 5\<rparr>,
         \<lparr>row_id = ''c2'', row_url = ''https://example.com/article'', summary = None, createdAt = 5, updatedAt = 5\<rparr>]"
  (is "?n \<and> ?c \<and> ?l \<and> ?nl \<and> ?h \<and> ?c2 \<and> ?l2")
proof -
  have c: ?c
    by (simp add: eval_create)
  have c2: ?c2
    by (simp add: eval_create)
  have l: ?l
    using list_explicit [of
      "[\<lparr>row_id = ''c1'', row_url = ''https://example.com'', summary = None, createdAt = 5, updatedAt = 5\<rparr>,
        \<lparr>row_id = ''c2'', row_url = ''https://example.com/article'', summary = None, createdAt = 3, updatedAt = 3\<rparr>]"
      "[\<lparr>row_id = ''c1'', row_url = ''https://example.com'', summary = None, createdAt = 5, updatedAt = 5\<rparr>,
        \<lparr>row_id = ''c2'', row_url = ''https://example.com/article'', summary = None, createdAt = 3, updatedAt = 3\<rparr>]"]
    by (simp add: newest_first_def)
  have l2: ?l2
    using list_explicit [of
      "[\<lparr>row_id = ''c1'', row_url = ''https://example.com'', summary = None, createdAt = 5, updatedAt = 5\<rparr>,
        \<lparr>row_id = ''c2'', row_url = ''https://example.com/article'', summary = None, createdAt = 5, updatedAt = 5\<rparr>]"
      "[\<lparr>row_id = ''c1'', row_url = ''https://example.com'', summary = None, createdAt = 5, updatedAt = 5\<rparr>,
        \<lparr>row_id = ''c2'', row_url = ''https://example.com/article'', summary = None, createdAt = 5, updatedAt = 5\<rparr>]"]
    by (simp add: newest_first_def)
  have nl: ?nl
  proof
    assume a: "list [\<lparr>row_id = ''c1'', row_url = ''https://example.com'', summary = None, createdAt = 5, updatedAt = 5\<rparr>,
           \<lparr>row_id = ''c2'', row_url = ''https://example.com/article'', summary = None, createdAt = 3, updatedAt = 3\<rparr>]
          [\<lparr>row_id = ''c2'', row_url = ''https://example.com/article'', summary = None, createdAt = 3, updatedAt = 3\<rparr>,
           \<lparr>row_id = ''c1'', row_url = ''https://example.com'', summary = None, createdAt = 5, updatedAt = 5\<rparr>]"
    have "newest_first [\<lparr>row_id = ''c2'', row_url = ''https://example.com/article'', summary = None, createdAt = 3, updatedAt = 3\<rparr>,
           \<lparr>row_id = ''c1'', row_url = ''https://example.com'', summary = None, createdAt = 5, updatedAt = 5\<rparr>]"
      using list_sorted [OF a] .
    then show False by (simp add: newest_first_def)
  qed
  show ?thesis using c l nl c2 l2 by simp
qed

subsection \<open>The summary\<close>

text \<open>
  C8 as stated fails. \<^verbatim>\<open>https:example.com/article\<close> is a URL of scheme \<^verbatim>\<open>https\<close> to the parser,
  and \<^verbatim>\<open>create\<close> with it and no summary is refused by the gate. And \<^verbatim>\<open>create\<close> with an
  accepted URL and a summary that holds the character U+0000 passes the gate and fails in
  the database.
\<close>

theorem valid_https_url_create_refused:
  "has_scheme ''https:example.com/article'' \<and> scheme_of ''https:example.com/article'' = ''https'' \<and>
   create has_scheme small_row ''c1'' 1 [] (Obj (Str ''https:example.com/article'') Undefined)
     = (Inl (BAD_REQUEST [SchemeNotAllowed]), []) \<and>
   create has_scheme small_row ''c1'' 1 [] (Obj (Str ''https://example.com'') (Str (''A test page'' @ [CHR 0x00])))
     = (Inl INTERNAL_SERVER_ERROR, [])"
  by (simp add: eval_create scheme_of_def)

text \<open>
  C8, as the code has it. With a URL whose trimmed form parses and begins with
  \<^verbatim>\<open>https://\<close>, and an id no row has, \<^verbatim>\<open>create\<close> succeeds whenever the database can store
  the row: without a summary the row's \<^verbatim>\<open>summary\<close> is NULL, with a summary string it is
  that string.
\<close>

theorem create_summary_null_or_given:
  assumes "parses (trim u)" and "startsWith (trim u) ''https://''" and "newId \<notin> set (map row_id db)"
  shows "(storable limits \<lparr>row_id = newId, row_url = trim u, summary = None, createdAt = now, updatedAt = now\<rparr> \<longrightarrow>
            create parses limits newId now db (Obj (Str u) Undefined) =
              (Inr \<lparr>row_id = newId, row_url = trim u, summary = None, createdAt = now, updatedAt = now\<rparr>,
               db @ [\<lparr>row_id = newId, row_url = trim u, summary = None, createdAt = now, updatedAt = now\<rparr>])) \<and>
         (storable limits \<lparr>row_id = newId, row_url = trim u, summary = Some t, createdAt = now, updatedAt = now\<rparr> \<longrightarrow>
            create parses limits newId now db (Obj (Str u) (Str t)) =
              (Inr \<lparr>row_id = newId, row_url = trim u, summary = Some t, createdAt = now, updatedAt = now\<rparr>,
               db @ [\<lparr>row_id = newId, row_url = trim u, summary = Some t, createdAt = now, updatedAt = now\<rparr>]))"
  using assms create_accepts [of parses u Undefined None newId db limits now]
    create_accepts [of parses u "Str t" "Some t" newId db limits now]
  by (simp add: parse_summary_def)

theorem create_summary_null_or_given_witness:
  "has_scheme (trim ''https://example.com/article'') \<and> startsWith (trim ''https://example.com/article'') ''https://'' \<and>
   has_scheme (trim ''https://example.com'') \<and> startsWith (trim ''https://example.com'') ''https://'' \<and>
   ''c1'' \<notin> set (map row_id []) \<and>
   storable small_row \<lparr>row_id = ''c1'', row_url = ''https://example.com/article'', summary = None, createdAt = 1, updatedAt = 1\<rparr> \<and>
   storable small_row \<lparr>row_id = ''c1'', row_url = ''https://example.com'', summary = Some ''A test page'', createdAt = 1, updatedAt = 1\<rparr> \<and>
   create has_scheme small_row ''c1'' 1 [] (Obj (Str ''https://example.com/article'') Undefined) =
     (Inr \<lparr>row_id = ''c1'', row_url = ''https://example.com/article'', summary = None, createdAt = 1, updatedAt = 1\<rparr>,
      [\<lparr>row_id = ''c1'', row_url = ''https://example.com/article'', summary = None, createdAt = 1, updatedAt = 1\<rparr>]) \<and>
   create has_scheme small_row ''c1'' 1 [] (Obj (Str ''https://example.com'') (Str ''A test page'')) =
     (Inr \<lparr>row_id = ''c1'', row_url = ''https://example.com'', summary = Some ''A test page'', createdAt = 1, updatedAt = 1\<rparr>,
      [\<lparr>row_id = ''c1'', row_url = ''https://example.com'', summary = Some ''A test page'', createdAt = 1, updatedAt = 1\<rparr>])"
proof -
  have a: "has_scheme (trim ''https://example.com/article'') \<and> startsWith (trim ''https://example.com/article'') ''https://''"
    by (simp add: trim_simps has_scheme_simps startsWith_def)
  have b: "has_scheme (trim ''https://example.com'') \<and> startsWith (trim ''https://example.com'') ''https://''"
    by (simp add: trim_simps has_scheme_simps startsWith_def)
  have c: "''c1'' \<notin> set (map row_id [])" by simp
  have d: "storable small_row \<lparr>row_id = ''c1'', row_url = ''https://example.com/article'', summary = None, createdAt = 1, updatedAt = 1\<rparr>"
    by (simp add: storable_def text_ok_def small_row_def)
  have e: "storable small_row \<lparr>row_id = ''c1'', row_url = ''https://example.com'', summary = Some ''A test page'', createdAt = 1, updatedAt = 1\<rparr>"
    by (simp add: storable_def text_ok_def small_row_def)
  show ?thesis
    using a b c d e
      create_summary_null_or_given [of has_scheme "''https://example.com/article''" "''c1''" "[]" small_row 1]
      create_summary_null_or_given [of has_scheme "''https://example.com''" "''c1''" "[]" small_row 1 "''A test page''"]
    by (simp add: trim_simps)
qed




subsection \<open>The same URL again\<close>

lemma create_keeps_ids_distinct:
  assumes "distinct (map row_id db)"
  shows "distinct (map row_id (snd (create parses limits newId now db raw)))"
  using create_cases [of parses limits newId now db raw] assms by auto

lemma create_each_keeps_ids_distinct:
  assumes "distinct (map row_id db)"
  shows "distinct (map row_id (snd (create_each parses limits db raw env)))"
  using assms
proof (induction env arbitrary: db)
  case Nil
  then show ?case by simp
next
  case (Cons e env)
  obtain newId now where e: "e = (newId, now)" by (cases e)
  obtain r db' where c: "create parses limits newId now db raw = (r, db')"
    by (cases "create parses limits newId now db raw")
  have "distinct (map row_id db')"
    using create_keeps_ids_distinct [OF Cons.prems, of parses limits newId now raw] c by simp
  from Cons.IH [OF this] show ?case
    using c e by (cases "create_each parses limits db' raw env") simp
qed

lemma create_each_same_url:
  assumes "parses (trim u)" and "startsWith (trim u) ''https://''" and "parse_summary sm = Inr t"
    and "distinct (map fst env)" and "set (map fst env) \<inter> set (map row_id db) = {}"
    and "\<forall>e \<in> set env. storable limits (new_row (trim u) t e)"
  shows "create_each parses limits db (Obj (Str u) sm) env =
           (map (\<lambda>e. Inr (new_row (trim u) t e)) env, db @ map (new_row (trim u) t) env)"
  using assms(4,5,6)
proof (induction env arbitrary: db)
  case Nil
  then show ?case by simp
next
  case (Cons e env)
  obtain newId now where e: "e = (newId, now)" by (cases e)
  have fresh: "newId \<notin> set (map row_id db)" using Cons.prems(2) e by auto
  have st: "storable limits (new_row (trim u) t (newId, now))" using Cons.prems(3) e by simp
  have c: "create parses limits newId now db (Obj (Str u) sm) =
             (Inr (new_row (trim u) t e), db @ [new_row (trim u) t e])"
    using create_accepted_input [of parses u sm t limits newId now db] assms(1-3) fresh st e
    by simp
  have d: "distinct (map fst env)" using Cons.prems(1) by simp
  have i: "set (map fst env) \<inter> set (map row_id (db @ [new_row (trim u) t e])) = {}"
    using Cons.prems(1,2) e by (auto simp: new_row_def)
  have s: "\<forall>e \<in> set env. storable limits (new_row (trim u) t e)" using Cons.prems(3) by simp
  from Cons.IH [OF d i s] show ?case using c e by simp
qed

text \<open>
  C10 as stated fails: \<^verbatim>\<open>https:example.com/page\<close> is a URL of scheme \<^verbatim>\<open>https\<close> to the parser,
  and \<^verbatim>\<open>create\<close> with it is refused by the gate every time; no row is added.
\<close>

theorem same_valid_url_refused_each_time:
  "has_scheme ''https:example.com/page'' \<and> scheme_of ''https:example.com/page'' = ''https'' \<and>
   create_each has_scheme small_row [] (Obj (Str ''https:example.com/page'') Undefined)
     [(''c1'', 1), (''c2'', 2)]
   = ([Inl (BAD_REQUEST [SchemeNotAllowed]), Inl (BAD_REQUEST [SchemeNotAllowed])], [])"
  by (simp add: eval_create scheme_of_def)

text \<open>
  C10, as the code has it. Nothing makes \<^verbatim>\<open>url\<close> unique. Take a URL whose trimmed form parses
  and begins with \<^verbatim>\<open>https://\<close>, and call \<^verbatim>\<open>create\<close> with it any number of times. Whatever ids
  the calls get, the primary key keeps the ids of the table distinct. When the ids are
  fresh and the database can store the rows, every call succeeds, whether or not the URL is
  in the table already, and adds a row with the trimmed URL; \<^verbatim>\<open>list\<close> then has an answer, and
  on a table of at most 20 rows every answer holds all the new rows. A single call succeeds
  exactly when its id is not in use and the database can store the row.
\<close>

theorem same_url_many_rows:
  assumes "parses (trim u)" and "startsWith (trim u) ''https://''"
  shows "create parses limits newId now db (Obj (Str u) Undefined) =
           (if newId \<notin> set (map row_id db) \<and> storable limits (new_row (trim u) None (newId, now))
            then (Inr (new_row (trim u) None (newId, now)), db @ [new_row (trim u) None (newId, now)])
            else (Inl INTERNAL_SERVER_ERROR, db)) \<and>
         (distinct (map row_id db) \<longrightarrow>
            distinct (map row_id (snd (create_each parses limits db (Obj (Str u) Undefined) env)))) \<and>
         (distinct (map fst env) \<and> set (map fst env) \<inter> set (map row_id db) = {} \<and>
          (\<forall>e \<in> set env. storable limits (new_row (trim u) None e)) \<longrightarrow>
            create_each parses limits db (Obj (Str u) Undefined) env =
              (map (\<lambda>e. Inr (new_row (trim u) None e)) env, db @ map (new_row (trim u) None) env) \<and>
            map row_url (map (new_row (trim u) None) env) = replicate (length env) (trim u) \<and>
            (\<exists>rs. list (db @ map (new_row (trim u) None) env) rs) \<and>
            (\<forall>rs. list (db @ map (new_row (trim u) None) env) rs \<and> length db + length env \<le> 20 \<longrightarrow>
               mset (map (new_row (trim u) None) env) \<subseteq># mset rs))"
proof -
  have a: "create_each parses limits db (Obj (Str u) Undefined) env =
           (map (\<lambda>e. Inr (new_row (trim u) None e)) env, db @ map (new_row (trim u) None) env)"
    if "distinct (map fst env)" and "set (map fst env) \<inter> set (map row_id db) = {}"
      and "\<forall>e \<in> set env. storable limits (new_row (trim u) None e)"
    using create_each_same_url [of parses u Undefined None env db limits] assms that
    by (simp add: parse_summary_def)
  have d: "map row_url (map (new_row (trim u) None) env) = replicate (length env) (trim u)"
    by (induction env) (simp_all add: new_row_def)
  have x: "\<exists>rs. list (db @ map (new_row (trim u) None) env) rs"
    using list_arrange by blast
  have e: "mset (map (new_row (trim u) None) env) \<subseteq># mset rs"
    if "list (db @ map (new_row (trim u) None) env) rs \<and> length db + length env \<le> 20" for rs
    using list_whole_table [of "db @ map (new_row (trim u) None) env" rs] that by simp
  have c: "create parses limits newId now db (Obj (Str u) Undefined) =
           (if newId \<notin> set (map row_id db) \<and> storable limits (new_row (trim u) None (newId, now))
            then (Inr (new_row (trim u) None (newId, now)), db @ [new_row (trim u) None (newId, now)])
            else (Inl INTERNAL_SERVER_ERROR, db))"
    using assms by (intro create_accepted_input) (simp_all add: parse_summary_def)
  have k: "distinct (map row_id db) \<longrightarrow>
            distinct (map row_id (snd (create_each parses limits db (Obj (Str u) Undefined) env)))"
    using create_each_keeps_ids_distinct [of db parses limits "Obj (Str u) Undefined" env] by blast
  show ?thesis
    using a d x e by (intro conjI c k) blast
qed

theorem same_url_many_rows_witness:
  "has_scheme (trim ''https://example.com'') \<and> startsWith (trim ''https://example.com'') ''https://'' \<and>
   distinct (map row_id []) \<and>
   distinct (map fst [(''c1'', 1::int), (''c2'', 2), (''c3'', 2)]) \<and>
   set (map fst [(''c1'', 1::int), (''c2'', 2), (''c3'', 2)]) \<inter> set (map row_id []) = {} \<and>
   storable small_row (new_row ''https://example.com'' None (''c1'', 1)) \<and>
   storable small_row (new_row ''https://example.com'' None (''c2'', 2)) \<and>
   storable small_row (new_row ''https://example.com'' None (''c3'', 2)) \<and>
   create_each has_scheme small_row [] (Obj (Str ''https://example.com'') Undefined)
     [(''c1'', 1), (''c2'', 2), (''c3'', 2)]
   = ([Inr \<lparr>row_id = ''c1'', row_url = ''https://example.com'', summary = None, createdAt = 1, updatedAt = 1\<rparr>,
       Inr \<lparr>row_id = ''c2'', row_url = ''https://example.com'', summary = None, createdAt = 2, updatedAt = 2\<rparr>,
       Inr \<lparr>row_id = ''c3'', row_url = ''https://example.com'', summary = None, createdAt = 2, updatedAt = 2\<rparr>],
      [\<lparr>row_id = ''c1'', row_url = ''https://example.com'', summary = None, createdAt = 1, updatedAt = 1\<rparr>,
       \<lparr>row_id = ''c2'', row_url = ''https://example.com'', summary = None, createdAt = 2, updatedAt = 2\<rparr>,
       \<lparr>row_id = ''c3'', row_url = ''https://example.com'', summary = None, createdAt = 2, updatedAt = 2\<rparr>]) \<and>
   create_each has_scheme small_row [] (Obj (Str ''https://example.com'') Undefined)
     [(''c1'', 1), (''c1'', 2)]
   = ([Inr \<lparr>row_id = ''c1'', row_url = ''https://example.com'', summary = None, createdAt = 1, updatedAt = 1\<rparr>,
       Inl INTERNAL_SERVER_ERROR],
      [\<lparr>row_id = ''c1'', row_url = ''https://example.com'', summary = None, createdAt = 1, updatedAt = 1\<rparr>])"
proof -
  have a1: "has_scheme (trim ''https://example.com'')"
    by (simp add: trim_simps has_scheme_simps)
  have a2: "startsWith (trim ''https://example.com'') ''https://''"
    by (simp add: trim_simps startsWith_def)
  have f: "distinct (map row_id [])" by simp
  have b: "distinct (map fst [(''c1'', 1::int), (''c2'', 2), (''c3'', 2)])" by simp
  have c: "set (map fst [(''c1'', 1::int), (''c2'', 2), (''c3'', 2)]) \<inter> set (map row_id []) = {}" by simp
  have d: "storable small_row (new_row ''https://example.com'' None (''c1'', 1)) \<and>
           storable small_row (new_row ''https://example.com'' None (''c2'', 2)) \<and>
           storable small_row (new_row ''https://example.com'' None (''c3'', 2))"
    by (simp add: storable_def text_ok_def small_row_def new_row_def)
  have s: "\<forall>e \<in> set [(''c1'', 1::int), (''c2'', 2), (''c3'', 2)].
             storable small_row (new_row (trim ''https://example.com'') None e)"
    using d by (simp add: trim_simps)
  note th = same_url_many_rows [of has_scheme "''https://example.com''" small_row "''c1''" 1 "[]"
        "[(''c1'', 1), (''c2'', 2), (''c3'', 2)]", OF a1 a2]
  have eq: "create_each has_scheme small_row [] (Obj (Str ''https://example.com'') Undefined)
              [(''c1'', 1), (''c2'', 2), (''c3'', 2)] =
            (map (\<lambda>e. Inr (new_row (trim ''https://example.com'') None e))
               [(''c1'', 1), (''c2'', 2), (''c3'', 2)],
             [] @ map (new_row (trim ''https://example.com'') None) [(''c1'', 1), (''c2'', 2), (''c3'', 2)])"
    using th b c s by blast
  have eq': "create_each has_scheme small_row [] (Obj (Str ''https://example.com'') Undefined)
     [(''c1'', 1), (''c2'', 2), (''c3'', 2)]
   = ([Inr \<lparr>row_id = ''c1'', row_url = ''https://example.com'', summary = None, createdAt = 1, updatedAt = 1\<rparr>,
       Inr \<lparr>row_id = ''c2'', row_url = ''https://example.com'', summary = None, createdAt = 2, updatedAt = 2\<rparr>,
       Inr \<lparr>row_id = ''c3'', row_url = ''https://example.com'', summary = None, createdAt = 2, updatedAt = 2\<rparr>],
      [\<lparr>row_id = ''c1'', row_url = ''https://example.com'', summary = None, createdAt = 1, updatedAt = 1\<rparr>,
       \<lparr>row_id = ''c2'', row_url = ''https://example.com'', summary = None, createdAt = 2, updatedAt = 2\<rparr>,
       \<lparr>row_id = ''c3'', row_url = ''https://example.com'', summary = None, createdAt = 2, updatedAt = 2\<rparr>])"
    unfolding eq by (simp add: trim_simps new_row_def)
  have e: "create_each has_scheme small_row [] (Obj (Str ''https://example.com'') Undefined)
     [(''c1'', 1), (''c1'', 2)]
   = ([Inr \<lparr>row_id = ''c1'', row_url = ''https://example.com'', summary = None, createdAt = 1, updatedAt = 1\<rparr>,
       Inl INTERNAL_SERVER_ERROR],
      [\<lparr>row_id = ''c1'', row_url = ''https://example.com'', summary = None, createdAt = 1, updatedAt = 1\<rparr>])"
    by (simp add: eval_create)
  show ?thesis
    using a1 a2 f b c d eq' e by blast
qed

end
